theory Spec2Isabelle
  imports Main
begin

section \<open>Exceptions\<close>

text \<open>
  The exceptions that the two tools of \<open>CalendarService\<close> can meet. Both tools wrap their
  whole body in \<open>try: ... except Exception as e\<close>, so an exception is a value \<open>Inl e\<close> of
  the body and never leaves the tool. \<open>BackendError\<close> carries the message of an exception
  raised by the Google client (\<open>.execute()\<close>).
\<close>

datatype error =
    OverflowError
  | TypeError
  | ValueError
  | ValidationError
  | BackendError string

section \<open>Dates, datetimes and timedeltas\<close>

text \<open>
  A \<open>date\<close> is its proleptic Gregorian ordinal (\<open>date.toordinal()\<close>: 0001-01-01 is 1,
  9999-12-31 is 3652059). A naive \<open>datetime\<close> is the integer
  \<open>ordinal * 86400000000 + microseconds since midnight\<close>; Python orders naive datetimes
  by their fields, which is the order of these integers. A \<open>timedelta\<close> is a number of
  microseconds.
\<close>

definition us_per_minute :: int where
  "us_per_minute = 60000000"

definition us_per_hour :: int where
  "us_per_hour = 3600000000"

definition us_per_day :: int where
  "us_per_day = 86400000000"

definition MAXORDINAL :: int where
  "MAXORDINAL = 3652059"

text \<open>\<open>timedelta(...)\<close> raises \<open>OverflowError\<close> when its day count exceeds 999999999 in magnitude.\<close>

definition timedelta :: "int \<Rightarrow> error + int" where
  "timedelta us = (if \<bar>us div us_per_day\<bar> \<le> 999999999 then Inr us else Inl OverflowError)"

definition timedelta_days :: "int \<Rightarrow> error + int" where
  "timedelta_days days = timedelta (days * us_per_day)"

definition timedelta_minutes :: "int \<Rightarrow> error + int" where
  "timedelta_minutes minutes = timedelta (minutes * us_per_minute)"

text \<open>\<open>datetime + timedelta\<close> and \<open>date + timedelta\<close> raise \<open>OverflowError\<close> outside years 1..9999.\<close>

definition datetime_add :: "int \<Rightarrow> int \<Rightarrow> error + int" where
  "datetime_add t delta =
     (if 0 < (t + delta) div us_per_day \<and> (t + delta) div us_per_day \<le> MAXORDINAL
      then Inr (t + delta) else Inl OverflowError)"

definition date_add :: "int \<Rightarrow> int \<Rightarrow> error + int" where
  "date_add d delta =
     (if 0 < d + delta div us_per_day \<and> d + delta div us_per_day \<le> MAXORDINAL
      then Inr (d + delta div us_per_day) else Inl OverflowError)"

text \<open>\<open>datetime.date()\<close>, \<open>date.weekday()\<close> (Monday is 0) and \<open>datetime.combine\<close>.\<close>

definition date_of :: "int \<Rightarrow> int" where
  "date_of t = t div us_per_day"

definition weekday :: "int \<Rightarrow> int" where
  "weekday d = (d + 6) mod 7"

definition combine :: "int \<Rightarrow> int \<Rightarrow> int" where
  "combine d time_of_day = d * us_per_day + time_of_day"

text \<open>
  A datetime as \<open>datetime.fromisoformat\<close> returns it: naive (no offset in the string) or
  aware (an offset, here always after \<open>'Z'\<close> was replaced by \<open>'+00:00'\<close>); an aware one
  is held as its UTC instant. Ordering a naive against an aware datetime raises
  \<open>TypeError\<close>.
\<close>

datatype pydatetime = Naive int | Aware int

fun dt_le :: "pydatetime \<Rightarrow> pydatetime \<Rightarrow> error + bool" where
  "dt_le (Naive a) (Naive b) = Inr (a \<le> b)"
| "dt_le (Aware a) (Aware b) = Inr (a \<le> b)"
| "dt_le (Naive a) (Aware b) = Inl TypeError"
| "dt_le (Aware a) (Naive b) = Inl TypeError"

fun dt_ge :: "pydatetime \<Rightarrow> pydatetime \<Rightarrow> error + bool" where
  "dt_ge (Naive a) (Naive b) = Inr (a \<ge> b)"
| "dt_ge (Aware a) (Aware b) = Inr (a \<ge> b)"
| "dt_ge (Naive a) (Aware b) = Inl TypeError"
| "dt_ge (Aware a) (Naive b) = Inl TypeError"

section \<open>Data models\<close>

text \<open>
  \<open>TimeSlot\<close> holds the two ISO strings \<open>slot_start.isoformat()\<close> and
  \<open>slot_end.isoformat()\<close>; they are kept as the naive datetimes they print, since
  \<open>isoformat\<close> is one-to-one on naive datetimes.
\<close>

record TimeSlot =
  start :: int
  end' :: int

text \<open>
  The three \<open>notes\<close> strings of \<open>find_available_slots\<close>, by their format and argument:
  \<open>"No available slots found between 10 AM and 5 PM in the next {} days"\<close>,
  \<open>"Found {} available slots between 10 AM and 5 PM"\<close> and \<open>"Error finding slots: {e}"\<close>.
\<close>

datatype notes_text = NoSlotsFound int | FoundSlots nat | ErrorFindingSlots error

record AvailableSlotsResponse =
  available_slots :: "TimeSlot list"
  selected_slot :: "TimeSlot option"
  notes' :: notes_text

text \<open>
  What the tool hands back: the pydantic model object itself, or the plain \<open>dict\<close> that
  \<open>model_dump()\<close> makes of it.
\<close>

datatype tool_result = ModelObject AvailableSlotsResponse | DumpedDict AvailableSlotsResponse

fun response :: "tool_result \<Rightarrow> AvailableSlotsResponse" where
  "response (ModelObject r) = r"
| "response (DumpedDict r) = r"

fun is_dict :: "tool_result \<Rightarrow> bool" where
  "is_dict (ModelObject r) = False"
| "is_dict (DumpedDict r) = True"

section \<open>The calendar backend and the clock\<close>

text \<open>
  One entry of the backend's \<open>busy\<close> list: what \<open>datetime.fromisoformat\<close> makes of
  \<open>busy['start'].replace('Z', '+00:00')\<close> and of \<open>busy['end']\<close> likewise; \<open>None\<close> when
  the string does not parse.
\<close>

record busy_interval =
  busy_start_iso :: "pydatetime option"
  busy_end_iso :: "pydatetime option"

definition fromisoformat :: "pydatetime option \<Rightarrow> error + pydatetime" where
  "fromisoformat s = (case s of None \<Rightarrow> Inl ValueError | Some t \<Rightarrow> Inr t)"

record freebusy_query =
  timeMin :: int
  timeMax :: int
  items :: "string list"

text \<open>
  The free/busy response is a dict that may lack \<open>'calendars'\<close>, whose value may lack the
  calendar id, whose value may lack \<open>'busy'\<close>.
\<close>

type_synonym freebusy_result = "(string \<rightharpoonup> busy_interval list option) option"

text \<open>
  The payload of \<open>events().insert\<close>: the \<open>event\<close> dict of \<open>create_event\<close> and the
  keyword arguments of the call.
\<close>

record event_time =
  dateTime :: string
  timeZone :: string

record event_body =
  body_summary :: string
  body_description :: "string option"
  body_start :: event_time
  body_end :: event_time
  body_attendees :: "string list"
  conference_requestId :: string
  conferenceSolutionKey_type :: string
  reminders_useDefault :: bool
  reminders_overrides :: "(string \<times> nat) list"
  guestsCanInviteOthers :: bool
  guestsCanModify :: bool
  guestsCanSeeOtherGuests :: bool

record insert_request =
  calendarId :: string
  body :: event_body
  conferenceDataVersion :: nat
  sendUpdates :: string
  sendNotifications :: bool
  supportsAttachments :: bool

text \<open>The event resource that a successful insert returns; every key may be absent.\<close>

record attendee =
  responseStatus :: "string option"
  email :: "string option"

record created_event =
  htmlLink :: "string option"
  hangoutLink :: "string option"
  id' :: "string option"
  event_attendees :: "attendee list option"

text \<open>
  \<open>self.service\<close>: the free/busy query and the event insertion; each may raise. The
  backend has state, so the answer to an insertion may depend on how many insertions
  came before it: \<open>events_insert self n request\<close> is the answer to \<open>request\<close> after \<open>n\<close> earlier
  insertions.
\<close>

record CalendarService =
  freebusy :: "freebusy_query \<Rightarrow> error + freebusy_result"
  events_insert :: "nat \<Rightarrow> insert_request \<Rightarrow> error + created_event"

text \<open>
  \<open>find_available_slots\<close> reads \<open>datetime.utcnow()\<close> three times: for \<open>timeMin\<close>, for
  \<open>timeMax\<close> and for \<open>current_date\<close>.
\<close>

record clock =
  utcnow_1 :: int
  utcnow_2 :: int
  utcnow_3 :: int

section \<open>find_available_slots\<close>

text \<open>
  \<open>freebusy_result.get('calendars', {}).get('primary', {}).get('busy', [])\<close>
\<close>

definition busy_slots_of :: "freebusy_result \<Rightarrow> busy_interval list" where
  "busy_slots_of freebusy_result =
     (case freebusy_result of
        None \<Rightarrow> []
      | Some calendars \<Rightarrow>
          (case calendars ''primary'' of
             None \<Rightarrow> []
           | Some primary \<Rightarrow> (case primary of None \<Rightarrow> [] | Some busy \<Rightarrow> busy)))"

text \<open>
  The inner \<open>for busy in busy_slots\<close> loop: both ends are parsed, then
  \<open>slot_end <= busy_start or slot_start >= busy_end\<close> is evaluated left to right; the
  first overlap ends the loop with \<open>slot_is_free = False\<close>.
\<close>

fun slot_is_free :: "busy_interval list \<Rightarrow> int \<Rightarrow> int \<Rightarrow> error + bool" where
  "slot_is_free [] slot_start slot_end = Inr True"
| "slot_is_free (busy # rest) slot_start slot_end =
     (case fromisoformat (busy_start_iso busy) of
        Inl e \<Rightarrow> Inl e
      | Inr busy_start \<Rightarrow>
     (case fromisoformat (busy_end_iso busy) of
        Inl e \<Rightarrow> Inl e
      | Inr busy_end \<Rightarrow>
     (case dt_le (Naive slot_end) busy_start of
        Inl e \<Rightarrow> Inl e
      | Inr before \<Rightarrow>
          if before then slot_is_free rest slot_start slot_end
          else (case dt_ge (Naive slot_start) busy_end of
                  Inl e \<Rightarrow> Inl e
                | Inr after \<Rightarrow>
                    if after then slot_is_free rest slot_start slot_end
                    else Inr False))))"

text \<open>
  The \<open>while slot_start + timedelta(minutes=duration_minutes) <= end_time\<close> loop of one
  day, appending to \<open>available_slots\<close>.
\<close>

function slots_loop ::
  "busy_interval list \<Rightarrow> int \<Rightarrow> int \<Rightarrow> int \<Rightarrow> TimeSlot list \<Rightarrow> error + TimeSlot list" where
  "slots_loop busy_slots duration_minutes end_time slot_start available =
     (case timedelta_minutes duration_minutes of
        Inl e \<Rightarrow> Inl e
      | Inr duration \<Rightarrow>
     (case datetime_add slot_start duration of
        Inl e \<Rightarrow> Inl e
      | Inr slot_end \<Rightarrow>
          if slot_end \<le> end_time then
            (case slot_is_free busy_slots slot_start slot_end of
               Inl e \<Rightarrow> Inl e
             | Inr free \<Rightarrow>
            (case datetime_add slot_start (15 * us_per_minute) of
               Inl e \<Rightarrow> Inl e
             | Inr next_start \<Rightarrow>
                 slots_loop busy_slots duration_minutes end_time next_start
                   (if free
                    then available @ [\<lparr>start = slot_start, end' = slot_end\<rparr>]
                    else available)))
          else Inr available))"
  by pat_completeness auto
termination
  by (relation "measure (\<lambda>(busy_slots, duration_minutes, end_time, slot_start, available).
        nat (end_time - slot_start - duration_minutes * us_per_minute + 1))")
     (auto simp: timedelta_minutes_def timedelta_def datetime_add_def us_per_minute_def
           split: if_splits)

declare slots_loop.simps [simp del]

text \<open>
  The \<open>for day in range(days_ahead)\<close> loop; weekends (\<open>weekday() >= 5\<close>) are skipped.
\<close>

fun days_loop ::
  "busy_interval list \<Rightarrow> int \<Rightarrow> int \<Rightarrow> int list \<Rightarrow> TimeSlot list \<Rightarrow> error + TimeSlot list" where
  "days_loop busy_slots duration_minutes current_date [] available = Inr available"
| "days_loop busy_slots duration_minutes current_date (day # days) available =
     (case timedelta_days day of
        Inl e \<Rightarrow> Inl e
      | Inr delta \<Rightarrow>
     (case date_add current_date delta of
        Inl e \<Rightarrow> Inl e
      | Inr day_date \<Rightarrow>
          if weekday day_date \<ge> 5
          then days_loop busy_slots duration_minutes current_date days available
          else
            (case slots_loop busy_slots duration_minutes
                    (combine day_date (17 * us_per_hour)) (combine day_date (10 * us_per_hour))
                    available of
               Inl e \<Rightarrow> Inl e
             | Inr available' \<Rightarrow>
                 days_loop busy_slots duration_minutes current_date days available')))"

text \<open>\<open>range(days_ahead)\<close>\<close>

definition range' :: "int \<Rightarrow> int list" where
  "range' n = [0..n - 1]"

text \<open>Lines 112 to 122: the query, from the first two clock readings.\<close>

definition build_query :: "clock \<Rightarrow> int \<Rightarrow> error + freebusy_query" where
  "build_query clk days_ahead =
     (case timedelta_days days_ahead of
        Inl e \<Rightarrow> Inl e
      | Inr delta \<Rightarrow>
     (case datetime_add (utcnow_2 clk) delta of
        Inl e \<Rightarrow> Inl e
      | Inr end_date \<Rightarrow>
          Inr \<lparr>timeMin = utcnow_1 clk, timeMax = end_date, items = [''primary'']\<rparr>))"

text \<open>The body of the \<open>try\<close> block up to the end of the search (lines 111 to 163).\<close>

definition search_slots ::
  "CalendarService \<Rightarrow> clock \<Rightarrow> int \<Rightarrow> int \<Rightarrow> error + TimeSlot list" where
  "search_slots self clk duration_minutes days_ahead =
     (case build_query clk days_ahead of
        Inl e \<Rightarrow> Inl e
      | Inr freebusy_query \<Rightarrow>
     (case freebusy self freebusy_query of
        Inl e \<Rightarrow> Inl e
      | Inr freebusy_result \<Rightarrow>
          days_loop (busy_slots_of freebusy_result) duration_minutes
            (date_of (utcnow_3 clk)) (range' days_ahead) []))"

text \<open>The tool: the three \<open>return\<close> statements (lines 165 to 187).\<close>

definition find_available_slots ::
  "CalendarService \<Rightarrow> clock \<Rightarrow> int \<Rightarrow> int \<Rightarrow> tool_result" where
  "find_available_slots self clk duration_minutes days_ahead =
     (case search_slots self clk duration_minutes days_ahead of
        Inl e \<Rightarrow>
          DumpedDict \<lparr>available_slots = [], selected_slot = None,
                      notes' = ErrorFindingSlots e\<rparr>
      | Inr slots \<Rightarrow>
          if slots = [] then
            DumpedDict \<lparr>available_slots = [], selected_slot = None,
                        notes' = NoSlotsFound days_ahead\<rparr>
          else
            ModelObject \<lparr>available_slots = slots, selected_slot = Some (slots ! 0),
                         notes' = FoundSlots (length slots)\<rparr>)"

section \<open>create_event\<close>

text \<open>
  The values of the \<open>event_details\<close> dict (JSON-like tool input), and the dict itself as
  a list of key/value pairs.
\<close>

datatype pyval = PStr string | PNone | PInt int | PList "pyval list"

record CalendarEventDetails =
  summary :: string
  description :: "string option"
  start_time :: string
  end_time :: string
  attendees :: "string list"
  timezone :: string

record CalendarEventResponse =
  status :: string
  event_link :: "string option"
  meet_link :: "string option"
  event_id :: "string option"
  error_message :: "error option"

text \<open>
  \<open>CalendarEventDetails(**event_details)\<close>: pydantic checks that every key is a field
  (\<open>extra='forbid'\<close>), that the required fields are there and that each value has the
  field's type; \<open>description\<close> defaults to \<open>None\<close> and \<open>timezone\<close> to \<open>"UTC"\<close>. It
  compares no field with another.
\<close>

definition field_names :: "string list" where
  "field_names =
     [''summary'', ''description'', ''start_time'', ''end_time'', ''attendees'', ''timezone'']"

fun required_str :: "pyval option \<Rightarrow> error + string" where
  "required_str (Some (PStr s)) = Inr s"
| "required_str _ = Inl ValidationError"

fun optional_str :: "pyval option \<Rightarrow> error + string option" where
  "optional_str None = Inr None"
| "optional_str (Some PNone) = Inr None"
| "optional_str (Some (PStr s)) = Inr (Some s)"
| "optional_str _ = Inl ValidationError"

fun default_str :: "string \<Rightarrow> pyval option \<Rightarrow> error + string" where
  "default_str d None = Inr d"
| "default_str d (Some (PStr s)) = Inr s"
| "default_str d _ = Inl ValidationError"

fun str_items :: "pyval list \<Rightarrow> error + string list" where
  "str_items [] = Inr []"
| "str_items (PStr s # vs) =
     (case str_items vs of Inl e \<Rightarrow> Inl e | Inr ss \<Rightarrow> Inr (s # ss))"
| "str_items (_ # vs) = Inl ValidationError"

fun required_str_list :: "pyval option \<Rightarrow> error + string list" where
  "required_str_list (Some (PList vs)) = str_items vs"
| "required_str_list _ = Inl ValidationError"

definition validate_details :: "(string \<times> pyval) list \<Rightarrow> error + CalendarEventDetails" where
  "validate_details event_details =
     (if \<not> list_all (\<lambda>k. k \<in> set field_names) (map fst event_details)
      then Inl ValidationError
      else
     (case required_str (map_of event_details ''summary'') of
        Inl e \<Rightarrow> Inl e
      | Inr s \<Rightarrow>
     (case optional_str (map_of event_details ''description'') of
        Inl e \<Rightarrow> Inl e
      | Inr d \<Rightarrow>
     (case required_str (map_of event_details ''start_time'') of
        Inl e \<Rightarrow> Inl e
      | Inr st \<Rightarrow>
     (case required_str (map_of event_details ''end_time'') of
        Inl e \<Rightarrow> Inl e
      | Inr et \<Rightarrow>
     (case required_str_list (map_of event_details ''attendees'') of
        Inl e \<Rightarrow> Inl e
      | Inr a \<Rightarrow>
     (case default_str ''UTC'' (map_of event_details ''timezone'') of
        Inl e \<Rightarrow> Inl e
      | Inr tz \<Rightarrow>
          Inr \<lparr>summary = s, description = d, start_time = st, end_time = et,
               attendees = a, timezone = tz\<rparr>)))))))"

text \<open>
  The \<open>event\<close> dict and the insert call built from the validated details;
  \<open>request_id\<close> is the string \<open>f"event_{datetime.now().timestamp()}"\<close>.
\<close>

definition build_event :: "string \<Rightarrow> CalendarEventDetails \<Rightarrow> event_body" where
  "build_event request_id details =
     \<lparr>body_summary = summary details,
      body_description = description details,
      body_start = \<lparr>dateTime = start_time details, timeZone = timezone details\<rparr>,
      body_end = \<lparr>dateTime = end_time details, timeZone = timezone details\<rparr>,
      body_attendees = attendees details,
      conference_requestId = request_id,
      conferenceSolutionKey_type = ''hangoutsMeet'',
      reminders_useDefault = False,
      reminders_overrides = [(''email'', 24 * 60), (''popup'', 30)],
      guestsCanInviteOthers = False,
      guestsCanModify = False,
      guestsCanSeeOtherGuests = True\<rparr>"

definition insert_call :: "event_body \<Rightarrow> insert_request" where
  "insert_call event =
     \<lparr>calendarId = ''primary'', body = event, conferenceDataVersion = 1,
      sendUpdates = ''all'', sendNotifications = True, supportsAttachments = False\<rparr>"

text \<open>
  What \<open>create_event\<close> does to the world, in order: insert calls, \<open>time.sleep\<close> calls (in
  seconds) and log lines.
\<close>

datatype log_message =
    AttemptFailed nat error
  | NotificationsSent
  | NotificationsNotSent
  | MayNotHaveReached "string option"
  | NotificationConfirmed "string option"
  | EventCreationFailed error

datatype effect = Insert insert_request | Sleep nat | Log log_message

fun is_insert :: "effect \<Rightarrow> bool" where
  "is_insert (Insert request) = True"
| "is_insert _ = False"

fun is_log :: "effect \<Rightarrow> bool" where
  "is_log (Log m) = True"
| "is_log _ = False"

definition insert_calls :: "effect list \<Rightarrow> nat" where
  "insert_calls trace = length (filter is_insert trace)"

text \<open>The insert calls and sleeps of a trace, in order, without the log lines.\<close>

definition actions :: "effect list \<Rightarrow> effect list" where
  "actions trace = filter (\<lambda>e. \<not> is_log e) trace"

definition max_retries :: nat where
  "max_retries = 3"

text \<open>
  The \<open>while retry_count < max_retries\<close> loop. It yields \<open>(created_event,
  notifications_sent)\<close>, or the exception that the third failure re-raises.
\<close>

function retry_loop ::
  "CalendarService \<Rightarrow> insert_request \<Rightarrow> nat \<Rightarrow> effect list
     \<Rightarrow> (error + created_event option \<times> bool) \<times> effect list" where
  "retry_loop self request retry_count trace =
     (if retry_count < max_retries then
        (case events_insert self (insert_calls trace) request of
           Inr created_event \<Rightarrow> (Inr (Some created_event, True), trace @ [Insert request])
         | Inl e \<Rightarrow>
             if retry_count + 1 = max_retries
             then (Inl e, trace @ [Insert request, Log (AttemptFailed (retry_count + 1) e)])
             else retry_loop self request (retry_count + 1)
                    (trace @ [Insert request, Log (AttemptFailed (retry_count + 1) e),
                              Sleep (2 ^ (retry_count + 1))]))
      else (Inr (None, False), trace))"
  by pat_completeness auto
termination
  by (relation "measure (\<lambda>(self, request, retry_count, trace). max_retries - retry_count)") auto

declare retry_loop.simps [simp del]

text \<open>The loop over \<open>created_event['attendees']\<close>, which only logs.\<close>

definition attendee_log :: "attendee \<Rightarrow> effect" where
  "attendee_log a =
     (if responseStatus a = Some ''needsAction''
      then Log (MayNotHaveReached (email a))
      else Log (NotificationConfirmed (email a)))"

definition error_response :: "error \<Rightarrow> CalendarEventResponse" where
  "error_response e =
     \<lparr>status = ''error'', event_link = None, meet_link = None, event_id = None,
      error_message = Some e\<rparr>"

text \<open>
  The tool. The outer \<open>except Exception\<close> turns every exception of the body into the
  error response, after one log line.
\<close>

definition create_event ::
  "CalendarService \<Rightarrow> string \<Rightarrow> (string \<times> pyval) list
     \<Rightarrow> CalendarEventResponse \<times> effect list" where
  "create_event self request_id event_details =
     (case validate_details event_details of
        Inl e \<Rightarrow> (error_response e, [Log (EventCreationFailed e)])
      | Inr details \<Rightarrow>
          (case retry_loop self (insert_call (build_event request_id details)) 0 [] of
             (Inl e, trace) \<Rightarrow> (error_response e, trace @ [Log (EventCreationFailed e)])
           | (Inr (created, notifications_sent), trace) \<Rightarrow>
               (case created of
                  None \<Rightarrow>
                    (error_response TypeError,
                     trace @ [Log (if notifications_sent then NotificationsSent
                                   else NotificationsNotSent),
                              Log (EventCreationFailed TypeError)])
                | Some created_event \<Rightarrow>
                    (\<lparr>status = ''success'', event_link = htmlLink created_event,
                      meet_link = hangoutLink created_event, event_id = id' created_event,
                      error_message = None\<rparr>,
                     trace @ [Log (if notifications_sent then NotificationsSent
                                   else NotificationsNotSent)]
                       @ (case event_attendees created_event of
                            None \<Rightarrow> []
                          | Some as \<Rightarrow> map attendee_log as)))))"

section \<open>Example inputs\<close>

text \<open>
  Monday 2024-01-15 has ordinal 738900 and Friday 2024-01-19 has ordinal 738904. The
  example clocks read 15:00:00 UTC on those days, one microsecond apart.
\<close>

definition monday :: int where
  "monday = 738900"

definition friday :: int where
  "friday = 738904"

definition clock_at :: "int \<Rightarrow> int \<Rightarrow> clock" where
  "clock_at d time_of_day =
     \<lparr>utcnow_1 = combine d time_of_day, utcnow_2 = combine d time_of_day + 1,
      utcnow_3 = combine d time_of_day + 2\<rparr>"

text \<open>
  A backend whose primary calendar has the given busy list and whose insert call answers
  as the given function says.
\<close>

definition backend ::
  "busy_interval list \<Rightarrow> (nat \<Rightarrow> insert_request \<Rightarrow> error + created_event) \<Rightarrow> CalendarService" where
  "backend busy answer =
     \<lparr>freebusy = (\<lambda>q. Inr (Some [''primary'' \<mapsto> Some busy])), events_insert = answer\<rparr>"

definition always_fails :: "nat \<Rightarrow> insert_request \<Rightarrow> error + created_event" where
  "always_fails n request = Inl (BackendError ''backend unavailable'')"

definition always_succeeds :: "nat \<Rightarrow> insert_request \<Rightarrow> error + created_event" where
  "always_succeeds n request =
     Inr \<lparr>htmlLink = Some ''https://calendar.example/event'', hangoutLink = None,
          id' = Some ''evt1'', event_attendees = None\<rparr>"

definition unreachable_backend :: CalendarService where
  "unreachable_backend =
     \<lparr>freebusy = (\<lambda>q. Inl (BackendError ''backend unavailable'')),
      events_insert = always_fails\<rparr>"

text \<open>An event request whose start equals its end.\<close>

definition zero_length_event :: "(string \<times> pyval) list" where
  "zero_length_event =
     [(''summary'', PStr ''Standup''),
      (''start_time'', PStr ''2024-01-15T10:00:00''),
      (''end_time'', PStr ''2024-01-15T10:00:00''),
      (''attendees'', PList [PStr ''a@example.com''])]"

text \<open>An ordinary event request, and one that lacks its start and end.\<close>

definition half_hour_event :: "(string \<times> pyval) list" where
  "half_hour_event =
     [(''summary'', PStr ''Standup''),
      (''start_time'', PStr ''2024-01-15T10:00:00''),
      (''end_time'', PStr ''2024-01-15T10:30:00''),
      (''attendees'', PList [PStr ''a@example.com'']),
      (''timezone'', PStr ''UTC'')]"

definition untimed_event :: "(string \<times> pyval) list" where
  "untimed_event = [(''summary'', PStr ''Standup''), (''attendees'', PList [])]"

text \<open>A slot starts before another.\<close>

definition earlier :: "TimeSlot \<Rightarrow> TimeSlot \<Rightarrow> bool" where
  "earlier a b \<longleftrightarrow> start a < start b"

text \<open>The same element at two positions of a list.\<close>

definition occurs_at :: "'a list \<Rightarrow> nat \<Rightarrow> nat \<Rightarrow> 'a \<Rightarrow> bool" where
  "occurs_at xs i j x \<longleftrightarrow> i < j \<and> j < length xs \<and> xs ! i = x \<and> xs ! j = x"

section \<open>Unfolding rules for concrete inputs\<close>

lemmas time_defs = us_per_minute_def us_per_hour_def us_per_day_def MAXORDINAL_def
  timedelta_def timedelta_days_def timedelta_minutes_def datetime_add_def date_add_def
  date_of_def weekday_def combine_def

lemmas example_defs = monday_def friday_def clock_at_def backend_def always_fails_def
  always_succeeds_def unreachable_backend_def zero_length_event_def

lemmas search_defs = find_available_slots_def search_slots_def build_query_def
  busy_slots_of_def range'_def fromisoformat_def slots_loop.simps

section \<open>Facts about the search loops\<close>

lemma dt_le_Naive: "dt_le (Naive a) y = Inr b \<longleftrightarrow> (\<exists>c. y = Naive c \<and> b = (a \<le> c))"
  by (cases y) auto

lemma dt_ge_Naive: "dt_ge (Naive a) y = Inr b \<longleftrightarrow> (\<exists>c. y = Naive c \<and> b = (c \<le> a))"
  by (cases y) auto

lemma slot_is_free_sound:
  "slot_is_free busy_slots s e = Inr True \<Longrightarrow> b \<in> set busy_slots \<Longrightarrow>
     (\<exists>c. busy_start_iso b = Some (Naive c) \<and> e \<le> c)
   \<or> (\<exists>d. busy_end_iso b = Some (Naive d) \<and> d \<le> s)"
proof (induction busy_slots)
  case Nil
  then show ?case by simp
next
  case (Cons a rest)
  from Cons.prems(1) have here:
    "(\<exists>c. busy_start_iso a = Some (Naive c) \<and> e \<le> c)
       \<or> (\<exists>d. busy_end_iso a = Some (Naive d) \<and> d \<le> s)"
    and rest: "slot_is_free rest s e = Inr True"
    by (auto simp: fromisoformat_def dt_le_Naive dt_ge_Naive split: option.splits sum.splits if_splits)
  show ?case
  proof (cases "b = a")
    case True
    with here show ?thesis by simp
  next
    case False
    with Cons.prems(2) have "b \<in> set rest" by simp
    with Cons.IH rest show ?thesis by simp
  qed
qed

lemma slots_loop_result:
  "slots_loop busy_slots duration_minutes window_close slot_start available = Inr result \<Longrightarrow>
   \<exists>new. result = available @ new \<and> sorted_wrt earlier new \<and>
     (\<forall>x\<in>set new. slot_start \<le> start x
        \<and> end' x = start x + duration_minutes * us_per_minute
        \<and> end' x \<le> window_close
        \<and> slot_is_free busy_slots (start x) (end' x) = Inr True)"
proof (induction busy_slots duration_minutes window_close slot_start available
       arbitrary: result rule: slots_loop.induct)
  case (1 busy_slots duration_minutes window_close slot_start available)
  show ?case
  proof (cases "slot_start + duration_minutes * us_per_minute \<le> window_close")
    case False
    with "1.prems" have "result = available"
      by (subst (asm) slots_loop.simps)
         (auto simp: timedelta_minutes_def timedelta_def datetime_add_def split: if_splits sum.splits)
    then show ?thesis by simp
  next
    case True
    let ?slot = "\<lparr>start = slot_start, end' = slot_start + duration_minutes * us_per_minute\<rparr>"
    from "1.prems"(1) True obtain free where
      td: "timedelta_minutes duration_minutes = Inr (duration_minutes * us_per_minute)" and
      se: "datetime_add slot_start (duration_minutes * us_per_minute)
             = Inr (slot_start + duration_minutes * us_per_minute)" and
      fr: "slot_is_free busy_slots slot_start (slot_start + duration_minutes * us_per_minute) = Inr free" and
      nx: "datetime_add slot_start (15 * us_per_minute) = Inr (slot_start + 15 * us_per_minute)" and
      rec: "slots_loop busy_slots duration_minutes window_close (slot_start + 15 * us_per_minute)
              (if free then available @ [?slot] else available) = Inr result"
      by (subst (asm) slots_loop.simps)
         (auto simp: timedelta_minutes_def timedelta_def datetime_add_def split: if_splits sum.splits)
    from "1.IH" [OF td se True fr nx rec] obtain new where
      res: "result = (if free then available @ [?slot] else available) @ new" and
      srt: "sorted_wrt earlier new" and
      mem: "\<forall>x\<in>set new. slot_start + 15 * us_per_minute \<le> start x
              \<and> end' x = start x + duration_minutes * us_per_minute
              \<and> end' x \<le> window_close
              \<and> slot_is_free busy_slots (start x) (end' x) = Inr True"
      by blast
    have later: "\<forall>x\<in>set new. slot_start < start x"
      using mem by (auto simp: us_per_minute_def)
    show ?thesis
    proof (cases free)
      case True
      have "result = available @ (?slot # new)" using res True by simp
      moreover have "sorted_wrt earlier (?slot # new)"
        using srt later by (simp add: earlier_def)
      moreover have "\<forall>x\<in>set (?slot # new). slot_start \<le> start x
              \<and> end' x = start x + duration_minutes * us_per_minute
              \<and> end' x \<le> window_close
              \<and> slot_is_free busy_slots (start x) (end' x) = Inr True"
        using mem later fr True \<open>slot_start + duration_minutes * us_per_minute \<le> window_close\<close>
        by auto
      ultimately show ?thesis by blast
    next
      case False
      have "result = available @ new" using res False by simp
      moreover have "\<forall>x\<in>set new. slot_start \<le> start x
              \<and> end' x = start x + duration_minutes * us_per_minute
              \<and> end' x \<le> window_close
              \<and> slot_is_free busy_slots (start x) (end' x) = Inr True"
        using mem later by auto
      ultimately show ?thesis using srt by blast
    qed
  qed
qed

lemma us_per_day_nonzero: "us_per_day \<noteq> 0"
  by (simp add: us_per_day_def)

lemma date_add_days:
  "date_add d (n * us_per_day) = Inr r \<longleftrightarrow> r = d + n \<and> 0 < d + n \<and> d + n \<le> MAXORDINAL"
  by (auto simp: date_add_def us_per_day_def)

lemma days_loop_ConsE:
  assumes "days_loop busy_slots duration_minutes current_date (day # days) available = Inr result"
  obtains
    (weekend) "0 < current_date + day" "current_date + day \<le> MAXORDINAL"
      "weekday (current_date + day) \<ge> 5"
      "days_loop busy_slots duration_minutes current_date days available = Inr result"
  | (workday) available' where "0 < current_date + day" "current_date + day \<le> MAXORDINAL"
      "weekday (current_date + day) < 5"
      "slots_loop busy_slots duration_minutes
         (combine (current_date + day) (17 * us_per_hour))
         (combine (current_date + day) (10 * us_per_hour)) available = Inr available'"
      "days_loop busy_slots duration_minutes current_date days available' = Inr result"
  using assms
  by (auto simp: timedelta_days_def timedelta_def date_add_days us_per_day_nonzero
           split: if_splits sum.splits)

lemma next_day_opens_later:
  assumes "day < day'"
    and "end' x = start x + duration_minutes * us_per_minute"
    and "end' x \<le> combine (current_date + day) (17 * us_per_hour)"
    and "- 1020 < duration_minutes"
    and "combine (current_date + day') (10 * us_per_hour) \<le> start y"
  shows "start x < start y"
  using assms by (simp add: combine_def us_per_hour_def us_per_minute_def us_per_day_def)

lemma days_loop_result:
  "days_loop busy_slots duration_minutes current_date days available = Inr result \<Longrightarrow>
   \<exists>new. result = available @ new
     \<and> (\<forall>x\<in>set new. \<exists>day\<in>set days.
            0 < current_date + day \<and> current_date + day \<le> MAXORDINAL
          \<and> weekday (current_date + day) < 5
          \<and> combine (current_date + day) (10 * us_per_hour) \<le> start x
          \<and> end' x = start x + duration_minutes * us_per_minute
          \<and> end' x \<le> combine (current_date + day) (17 * us_per_hour)
          \<and> slot_is_free busy_slots (start x) (end' x) = Inr True)
     \<and> (sorted_wrt (<) days \<and> - 1020 < duration_minutes \<longrightarrow> sorted_wrt earlier new)"
proof (induction days arbitrary: available result)
  case Nil
  then show ?case by simp
next
  case (Cons day days)
  from Cons.prems show ?case
  proof (cases rule: days_loop_ConsE)
    case weekend
    from Cons.IH [OF weekend(4)] show ?thesis by auto
  next
    case (workday available')
    from slots_loop_result [OF workday(4)] obtain new1 where
      a': "available' = available @ new1" and
      srt1: "sorted_wrt earlier new1" and
      mem1: "\<forall>x\<in>set new1. combine (current_date + day) (10 * us_per_hour) \<le> start x
              \<and> end' x = start x + duration_minutes * us_per_minute
              \<and> end' x \<le> combine (current_date + day) (17 * us_per_hour)
              \<and> slot_is_free busy_slots (start x) (end' x) = Inr True"
      by blast
    from Cons.IH [OF workday(5)] obtain new2 where
      res: "result = available' @ new2" and
      mem2: "\<forall>x\<in>set new2. \<exists>day\<in>set days.
            0 < current_date + day \<and> current_date + day \<le> MAXORDINAL
          \<and> weekday (current_date + day) < 5
          \<and> combine (current_date + day) (10 * us_per_hour) \<le> start x
          \<and> end' x = start x + duration_minutes * us_per_minute
          \<and> end' x \<le> combine (current_date + day) (17 * us_per_hour)
          \<and> slot_is_free busy_slots (start x) (end' x) = Inr True" and
      srt2: "sorted_wrt (<) days \<and> - 1020 < duration_minutes \<longrightarrow> sorted_wrt earlier new2"
      by blast
    have "result = available @ (new1 @ new2)"
      using a' res by simp
    moreover have "\<forall>x\<in>set (new1 @ new2). \<exists>d\<in>set (day # days).
            0 < current_date + d \<and> current_date + d \<le> MAXORDINAL
          \<and> weekday (current_date + d) < 5
          \<and> combine (current_date + d) (10 * us_per_hour) \<le> start x
          \<and> end' x = start x + duration_minutes * us_per_minute
          \<and> end' x \<le> combine (current_date + d) (17 * us_per_hour)
          \<and> slot_is_free busy_slots (start x) (end' x) = Inr True"
    proof
      fix x assume "x \<in> set (new1 @ new2)"
      then consider "x \<in> set new1" | "x \<in> set new2" by auto
      then show "\<exists>d\<in>set (day # days).
            0 < current_date + d \<and> current_date + d \<le> MAXORDINAL
          \<and> weekday (current_date + d) < 5
          \<and> combine (current_date + d) (10 * us_per_hour) \<le> start x
          \<and> end' x = start x + duration_minutes * us_per_minute
          \<and> end' x \<le> combine (current_date + d) (17 * us_per_hour)
          \<and> slot_is_free busy_slots (start x) (end' x) = Inr True"
      proof cases
        case 1
        with mem1 workday(1,2,3) show ?thesis by auto
      next
        case 2
        with mem2 show ?thesis by auto
      qed
    qed
    moreover have "sorted_wrt earlier (new1 @ new2)"
      if ord: "sorted_wrt (<) (day # days)" and dur: "- 1020 < duration_minutes"
    proof -
      have "sorted_wrt earlier new2" using srt2 ord dur by simp
      moreover have "earlier x y" if "x \<in> set new1" and "y \<in> set new2" for x y
      proof -
        from mem2 that(2) obtain day' where
          "day' \<in> set days" and
          y: "combine (current_date + day') (10 * us_per_hour) \<le> start y"
          by blast
        with ord have "day < day'" by simp
        moreover from mem1 that(1) have
          "end' x = start x + duration_minutes * us_per_minute"
          "end' x \<le> combine (current_date + day) (17 * us_per_hour)"
          by auto
        ultimately have "start x < start y"
          using dur y by (rule next_day_opens_later)
        then show ?thesis by (simp add: earlier_def)
      qed
      ultimately show ?thesis using srt1 by (simp add: sorted_wrt_append)
    qed
    ultimately show ?thesis by blast
  qed
qed

lemma earlier_distinct: "sorted_wrt earlier xs \<Longrightarrow> distinct xs"
  by (induction xs) (auto simp: earlier_def)

lemma occurs_at_not_distinct:
  assumes "occurs_at xs i j x"
  shows "\<not> distinct xs"
proof
  assume d: "distinct xs"
  from assms have "i < length xs" "j < length xs" "xs ! i = xs ! j" "i \<noteq> j"
    by (auto simp: occurs_at_def)
  with d show False by (simp add: nth_eq_iff_index_eq)
qed

lemma found_slots:
  "available_slots (response (find_available_slots self clk duration_minutes days_ahead)) =
     (case search_slots self clk duration_minutes days_ahead of Inl e \<Rightarrow> [] | Inr slots \<Rightarrow> slots)"
  by (simp add: find_available_slots_def split: sum.splits)

lemma search_slotsE:
  assumes "search_slots self clk duration_minutes days_ahead = Inr slots"
  obtains q res where "build_query clk days_ahead = Inr q" "freebusy self q = Inr res"
    "days_loop (busy_slots_of res) duration_minutes (date_of (utcnow_3 clk))
       (range' days_ahead) [] = Inr slots"
  using assms by (auto simp: search_slots_def split: sum.splits)

lemma candidateE:
  assumes "x \<in> set (available_slots (response (find_available_slots self clk duration_minutes days_ahead)))"
  obtains q res day where "build_query clk days_ahead = Inr q" "freebusy self q = Inr res"
    "0 \<le> day" "day < days_ahead"
    "0 < date_of (utcnow_3 clk) + day" "date_of (utcnow_3 clk) + day \<le> MAXORDINAL"
    "weekday (date_of (utcnow_3 clk) + day) < 5"
    "combine (date_of (utcnow_3 clk) + day) (10 * us_per_hour) \<le> start x"
    "end' x = start x + duration_minutes * us_per_minute"
    "end' x \<le> combine (date_of (utcnow_3 clk) + day) (17 * us_per_hour)"
    "slot_is_free (busy_slots_of res) (start x) (end' x) = Inr True"
proof -
  from assms obtain slots where
    s: "search_slots self clk duration_minutes days_ahead = Inr slots" and x: "x \<in> set slots"
    by (cases "search_slots self clk duration_minutes days_ahead") (auto simp: found_slots)
  from s obtain q res where
    q: "build_query clk days_ahead = Inr q" "freebusy self q = Inr res" and
    d: "days_loop (busy_slots_of res) duration_minutes (date_of (utcnow_3 clk))
          (range' days_ahead) [] = Inr slots"
    by (rule search_slotsE)
  from days_loop_result [OF d] have "\<forall>x\<in>set slots. \<exists>day\<in>set (range' days_ahead).
      0 < date_of (utcnow_3 clk) + day \<and> date_of (utcnow_3 clk) + day \<le> MAXORDINAL
    \<and> weekday (date_of (utcnow_3 clk) + day) < 5
    \<and> combine (date_of (utcnow_3 clk) + day) (10 * us_per_hour) \<le> start x
    \<and> end' x = start x + duration_minutes * us_per_minute
    \<and> end' x \<le> combine (date_of (utcnow_3 clk) + day) (17 * us_per_hour)
    \<and> slot_is_free (busy_slots_of res) (start x) (end' x) = Inr True"
    by simp
  with x obtain day where
    "day \<in> set (range' days_ahead)"
    "0 < date_of (utcnow_3 clk) + day" "date_of (utcnow_3 clk) + day \<le> MAXORDINAL"
    "weekday (date_of (utcnow_3 clk) + day) < 5"
    "combine (date_of (utcnow_3 clk) + day) (10 * us_per_hour) \<le> start x"
    "end' x = start x + duration_minutes * us_per_minute"
    "end' x \<le> combine (date_of (utcnow_3 clk) + day) (17 * us_per_hour)"
    "slot_is_free (busy_slots_of res) (start x) (end' x) = Inr True"
    by blast
  moreover from this(1) have "0 \<le> day" "day < days_ahead"
    by (auto simp: range'_def)
  ultimately show thesis using q by (intro that)
qed

lemma date_of_between:
  assumes "combine d a \<le> t" and "t < combine d b" and "0 \<le> a" and "b \<le> us_per_day"
  shows "date_of t = d"
proof -
  have "t = us_per_day * d + (t - us_per_day * d)" by simp
  moreover have "0 \<le> t - us_per_day * d"
    using assms(1,3) by (simp add: combine_def mult.commute)
  moreover have "t - us_per_day * d < us_per_day"
    using assms(2,4) by (simp add: combine_def mult.commute)
  ultimately have "t div us_per_day = d" by (rule int_div_pos_eq)
  then show ?thesis by (simp add: date_of_def)
qed

subsection \<open>A calendar with no busy interval\<close>

text \<open>
  With an empty busy list, a duration of 0 to 420 minutes and days within the range of
  \<open>date\<close>, neither loop raises, and the loop of a day starts with the slot at its first
  position if that slot fits.
\<close>

lemma timedelta_minutes_small:
  assumes "0 \<le> m" and "m \<le> 420"
  shows "timedelta_minutes m = Inr (m * us_per_minute)"
proof -
  have "m * us_per_minute div us_per_day = 0"
    using assms by (intro div_pos_pos_trivial) (simp_all add: us_per_minute_def us_per_day_def)
  then show ?thesis by (simp add: timedelta_minutes_def timedelta_def)
qed

lemma timedelta_days_small:
  assumes "0 \<le> n" and "n \<le> MAXORDINAL"
  shows "timedelta_days n = Inr (n * us_per_day)"
  using assms by (simp add: timedelta_days_def timedelta_def us_per_day_nonzero MAXORDINAL_def)

lemma datetime_add_same_day:
  assumes "0 < d" and "d \<le> MAXORDINAL"
    and "combine d 0 \<le> t + delta" and "t + delta < combine d us_per_day"
  shows "datetime_add t delta = Inr (t + delta)"
proof -
  from assms(3,4) have "date_of (t + delta) = d"
    by (rule date_of_between) simp_all
  with assms(1,2) show ?thesis by (simp add: datetime_add_def date_of_def)
qed

lemma slots_loop_free_calendar:
  assumes "busy_slots = []" and "window_close = combine d (17 * us_per_hour)"
    and "0 < d" and "d \<le> MAXORDINAL" and "0 \<le> duration_minutes" and "duration_minutes \<le> 420"
    and "combine d (10 * us_per_hour) \<le> slot_start"
    and "slot_start + duration_minutes * us_per_minute \<le> window_close + 15 * us_per_minute"
  shows "\<exists>new. slots_loop busy_slots duration_minutes window_close slot_start available
            = Inr (available @ new)
          \<and> (slot_start + duration_minutes * us_per_minute \<le> window_close \<longrightarrow>
               (\<exists>rest. new = \<lparr>start = slot_start,
                   end' = slot_start + duration_minutes * us_per_minute\<rparr> # rest))"
  using assms
proof (induction busy_slots duration_minutes window_close slot_start available
       rule: slots_loop.induct)
  case (1 busy_slots duration_minutes window_close slot_start available)
  let ?end = "slot_start + duration_minutes * us_per_minute"
  have td: "timedelta_minutes duration_minutes = Inr (duration_minutes * us_per_minute)"
    using "1.prems"(5,6) by (rule timedelta_minutes_small)
  have se: "datetime_add slot_start (duration_minutes * us_per_minute) = Inr ?end"
    using "1.prems"(3,4)
  proof (rule datetime_add_same_day)
    show "combine d 0 \<le> ?end"
      using "1.prems"(5,7) by (simp add: combine_def us_per_hour_def us_per_minute_def)
    show "?end < combine d us_per_day"
      using "1.prems"(2,8) by (simp add: combine_def us_per_hour_def us_per_minute_def us_per_day_def)
  qed
  show ?case
  proof (cases "?end \<le> window_close")
    case False
    then have "slots_loop busy_slots duration_minutes window_close slot_start available
        = Inr available"
      by (subst slots_loop.simps) (simp add: td se)
    with False show ?thesis by simp
  next
    case True
    let ?slot = "\<lparr>start = slot_start, end' = ?end\<rparr>"
    have fr: "slot_is_free busy_slots slot_start ?end = Inr True"
      using "1.prems"(1) by simp
    have nx: "datetime_add slot_start (15 * us_per_minute) = Inr (slot_start + 15 * us_per_minute)"
      using "1.prems"(3,4)
    proof (rule datetime_add_same_day)
      show "combine d 0 \<le> slot_start + 15 * us_per_minute"
        using "1.prems"(7) by (simp add: combine_def us_per_hour_def us_per_minute_def)
      show "slot_start + 15 * us_per_minute < combine d us_per_day"
        using "1.prems"(2,5) True
        by (simp add: combine_def us_per_hour_def us_per_minute_def us_per_day_def)
    qed
    have "\<exists>new. slots_loop busy_slots duration_minutes window_close
              (slot_start + 15 * us_per_minute) (if True then available @ [?slot] else available)
            = Inr ((if True then available @ [?slot] else available) @ new)
          \<and> (slot_start + 15 * us_per_minute + duration_minutes * us_per_minute \<le> window_close \<longrightarrow>
               (\<exists>rest. new = \<lparr>start = slot_start + 15 * us_per_minute,
                   end' = slot_start + 15 * us_per_minute + duration_minutes * us_per_minute\<rparr> # rest))"
    proof (rule "1.IH" [OF td se True fr nx])
      show "combine d (10 * us_per_hour) \<le> slot_start + 15 * us_per_minute"
        using "1.prems"(7) by (simp add: us_per_minute_def)
      show "slot_start + 15 * us_per_minute + duration_minutes * us_per_minute
          \<le> window_close + 15 * us_per_minute"
        using True by simp
    qed (use "1.prems" in simp_all)
    then obtain new where
      "slots_loop busy_slots duration_minutes window_close
              (slot_start + 15 * us_per_minute) (available @ [?slot])
            = Inr (available @ ?slot # new)"
      by auto
    then have "slots_loop busy_slots duration_minutes window_close slot_start available
        = Inr (available @ ?slot # new)"
      by (subst slots_loop.simps) (simp add: td se True fr nx)
    then show ?thesis by blast
  qed
qed

lemma days_loop_free_calendar:
  assumes "0 \<le> duration_minutes" and "duration_minutes \<le> 420" and "0 < current_date"
    and "\<forall>day\<in>set days. 0 \<le> day \<and> current_date + day \<le> MAXORDINAL"
  shows "\<exists>new. days_loop [] duration_minutes current_date days available = Inr (available @ new)"
  using assms(4)
proof (induction days arbitrary: available)
  case Nil
  then show ?case by simp
next
  case (Cons day days)
  from Cons.prems have day: "0 \<le> day" "current_date + day \<le> MAXORDINAL"
    and rest: "\<forall>day\<in>set days. 0 \<le> day \<and> current_date + day \<le> MAXORDINAL"
    by simp_all
  from day assms(3) have td: "timedelta_days day = Inr (day * us_per_day)"
    by (intro timedelta_days_small) simp_all
  from day assms(3) have da: "date_add current_date (day * us_per_day) = Inr (current_date + day)"
    by (simp add: date_add_days)
  show ?case
  proof (cases "weekday (current_date + day) \<ge> 5")
    case True
    with Cons.IH [OF rest, of available] td da show ?thesis by simp
  next
    case False
    from day assms(3) have valid: "0 < current_date + day" by simp
    have "\<exists>new. slots_loop [] duration_minutes (combine (current_date + day) (17 * us_per_hour))
           (combine (current_date + day) (10 * us_per_hour)) available = Inr (available @ new)
          \<and> (combine (current_date + day) (10 * us_per_hour) + duration_minutes * us_per_minute
               \<le> combine (current_date + day) (17 * us_per_hour) \<longrightarrow>
               (\<exists>rest. new = \<lparr>start = combine (current_date + day) (10 * us_per_hour),
                   end' = combine (current_date + day) (10 * us_per_hour)
                          + duration_minutes * us_per_minute\<rparr> # rest))"
      using refl refl valid day(2) assms(1,2)
    proof (rule slots_loop_free_calendar)
      show "combine (current_date + day) (10 * us_per_hour) + duration_minutes * us_per_minute
          \<le> combine (current_date + day) (17 * us_per_hour) + 15 * us_per_minute"
        using assms(2) by (simp add: combine_def us_per_hour_def us_per_minute_def)
    qed simp
    then obtain new1 where
      s: "slots_loop [] duration_minutes (combine (current_date + day) (17 * us_per_hour))
           (combine (current_date + day) (10 * us_per_hour)) available = Inr (available @ new1)"
      by blast
    from Cons.IH [OF rest, of "available @ new1"] obtain new2 where
      "days_loop [] duration_minutes current_date days (available @ new1)
         = Inr ((available @ new1) @ new2)"
      by blast
    with s td da False have
      "days_loop [] duration_minutes current_date (day # days) available
         = Inr (available @ (new1 @ new2))"
      by simp
    then show ?thesis by blast
  qed
qed

section \<open>Facts about the retry loop\<close>

text \<open>The loop from \<open>retry_count = 0\<close>, by the answers to the first three insert calls.\<close>

lemma retry_loop_from_start:
  "retry_loop self request 0 [] =
     (case events_insert self 0 request of
        Inr created \<Rightarrow> (Inr (Some created, True), [Insert request])
      | Inl e1 \<Rightarrow>
     (case events_insert self 1 request of
        Inr created \<Rightarrow>
          (Inr (Some created, True),
           [Insert request, Log (AttemptFailed 1 e1), Sleep 2, Insert request])
      | Inl e2 \<Rightarrow>
     (case events_insert self 2 request of
        Inr created \<Rightarrow>
          (Inr (Some created, True),
           [Insert request, Log (AttemptFailed 1 e1), Sleep 2,
            Insert request, Log (AttemptFailed 2 e2), Sleep 4, Insert request])
      | Inl e3 \<Rightarrow>
          (Inl e3,
           [Insert request, Log (AttemptFailed 1 e1), Sleep 2,
            Insert request, Log (AttemptFailed 2 e2), Sleep 4,
            Insert request, Log (AttemptFailed 3 e3)]))))"
  by (simp add: retry_loop.simps max_retries_def insert_calls_def eval_nat_numeral
        split: sum.splits)

lemma insert_calls_simps:
  "insert_calls [] = 0"
  "insert_calls (Insert request # trace) = Suc (insert_calls trace)"
  "insert_calls (Sleep n # trace) = insert_calls trace"
  "insert_calls (Log m # trace) = insert_calls trace"
  by (simp_all add: insert_calls_def)

lemma actions_simps:
  "actions [] = []"
  "actions (Insert request # trace) = Insert request # actions trace"
  "actions (Sleep n # trace) = Sleep n # actions trace"
  "actions (Log m # trace) = actions trace"
  by (simp_all add: actions_def)

lemma insert_calls_append:
  "insert_calls (xs @ ys) = insert_calls xs + insert_calls ys"
  by (simp add: insert_calls_def)

lemma actions_append: "actions (xs @ ys) = actions xs @ actions ys"
  by (simp add: actions_def)

lemma insert_calls_attendee_logs: "insert_calls (map attendee_log people) = 0"
  by (simp add: insert_calls_def filter_empty_conv attendee_log_def)

lemma actions_attendee_logs: "actions (map attendee_log people) = []"
  by (auto simp: actions_def filter_empty_conv attendee_log_def)

lemma half_hour_event_valid:
  "validate_details half_hour_event =
     Inr \<lparr>summary = ''Standup'', description = None,
          start_time = ''2024-01-15T10:00:00'', end_time = ''2024-01-15T10:30:00'',
          attendees = [''a@example.com''], timezone = ''UTC''\<rparr>"
  by (simp add: validate_details_def field_names_def half_hour_event_def)

section \<open>C1: candidates and the busy set\<close>

text \<open>
  C1. Every slot in \<open>available_slots\<close> ends as many minutes after its start as were asked
  for, and is disjoint from every interval of the busy list that the free/busy query
  returned, by the half-open rule of the code: for a candidate \<open>[t, t + duration)\<close> and
  a busy interval \<open>[c, d)\<close>, \<open>t + duration \<le> c\<close> or \<open>t \<ge> d\<close>. A candidate that overlaps a
  busy interval is therefore not in the result. The slot times are naive datetimes, so
  the busy times they were compared with are naive too: a comparison with an aware
  datetime raises \<open>TypeError\<close>, and then the result has no candidate at all.
\<close>

theorem candidates_avoid_busy:
  assumes "x \<in> set (available_slots (response (find_available_slots self clk duration_minutes days_ahead)))"
  shows "end' x = start x + duration_minutes * us_per_minute
    \<and> (\<exists>q res. build_query clk days_ahead = Inr q \<and> freebusy self q = Inr res
         \<and> (\<forall>b\<in>set (busy_slots_of res).
               (\<exists>c. busy_start_iso b = Some (Naive c) \<and> end' x \<le> c)
             \<or> (\<exists>d. busy_end_iso b = Some (Naive d) \<and> d \<le> start x)))"
  using assms
proof (cases rule: candidateE)
  case (1 q res day)
  from slot_is_free_sound [OF 1(11)] 1(1,2,9) show ?thesis by blast
qed

text \<open>
  With Monday 10:00 to 10:15 busy and 405 minutes asked for, the slot from 10:15 to 17:00
  is a candidate; it starts when the busy interval ends.
\<close>

theorem candidates_avoid_busy_witness:
  "\<lparr>start = combine monday (10 * us_per_hour + 15 * us_per_minute),
    end' = combine monday (17 * us_per_hour)\<rparr>
     \<in> set (available_slots (response (find_available_slots
          (backend [\<lparr>busy_start_iso = Some (Naive (combine monday (10 * us_per_hour))),
                     busy_end_iso = Some (Naive (combine monday (10 * us_per_hour + 15 * us_per_minute)))\<rparr>]
             always_fails)
          (clock_at monday (15 * us_per_hour)) 405 1)))
   \<and> (combine monday (17 * us_per_hour) \<le> combine monday (10 * us_per_hour)
      \<or> combine monday (10 * us_per_hour + 15 * us_per_minute)
           \<le> combine monday (10 * us_per_hour + 15 * us_per_minute))"
proof -
  have h: "\<lparr>start = combine monday (10 * us_per_hour + 15 * us_per_minute),
    end' = combine monday (17 * us_per_hour)\<rparr>
     \<in> set (available_slots (response (find_available_slots
          (backend [\<lparr>busy_start_iso = Some (Naive (combine monday (10 * us_per_hour))),
                     busy_end_iso = Some (Naive (combine monday (10 * us_per_hour + 15 * us_per_minute)))\<rparr>]
             always_fails)
          (clock_at monday (15 * us_per_hour)) 405 1)))"
    by (simp add: search_defs time_defs example_defs)
  from candidates_avoid_busy [OF h] have
    "combine monday (17 * us_per_hour) \<le> combine monday (10 * us_per_hour)
      \<or> combine monday (10 * us_per_hour + 15 * us_per_minute)
           \<le> combine monday (10 * us_per_hour + 15 * us_per_minute)"
    by (auto simp: backend_def busy_slots_of_def)
  with h show ?thesis by simp
qed

section \<open>C2: malformed requests\<close>

text \<open>
  C2, as the code has it. \<open>find_available_slots\<close> checks nothing about its arguments and
  has no outcome for an invalid request. A duration above the 420 minutes of the window
  gets the ordinary empty answer: the dumped dict with no candidate, no selected slot
  and the \<open>"No available slots found ..."\<close> note, or the \<open>"Error finding slots"\<close> note when
  the search raised (the free/busy query failed, or a date left the range of \<open>date\<close>).
  The free/busy query is built and issued before the duration is looked at: with such a
  duration too, an exception of the query, or of building it, is what the answer reports.
\<close>

theorem oversized_duration_finds_nothing:
  assumes "420 < duration_minutes"
  shows "find_available_slots self clk duration_minutes days_ahead =
     DumpedDict \<lparr>available_slots = [], selected_slot = None,
       notes' = (case search_slots self clk duration_minutes days_ahead of
                   Inl e \<Rightarrow> ErrorFindingSlots e
                 | Inr slots \<Rightarrow> NoSlotsFound days_ahead)\<rparr>
    \<and> (build_query clk days_ahead = Inr q \<and> freebusy self q = Inl e
        \<longrightarrow> find_available_slots self clk duration_minutes days_ahead =
            DumpedDict \<lparr>available_slots = [], selected_slot = None,
              notes' = ErrorFindingSlots e\<rparr>)
    \<and> (build_query clk days_ahead = Inl e
        \<longrightarrow> find_available_slots self clk duration_minutes days_ahead =
            DumpedDict \<lparr>available_slots = [], selected_slot = None,
              notes' = ErrorFindingSlots e\<rparr>)
    \<and> (build_query clk days_ahead = Inr q \<and> freebusy self q = Inr res
        \<longrightarrow> find_available_slots self clk duration_minutes days_ahead =
            DumpedDict \<lparr>available_slots = [], selected_slot = None,
              notes' = (case days_loop (busy_slots_of res) duration_minutes
                               (date_of (utcnow_3 clk)) (range' days_ahead) [] of
                          Inl e \<Rightarrow> ErrorFindingSlots e
                        | Inr slots \<Rightarrow> NoSlotsFound days_ahead)\<rparr>)"
proof -
  have main: "find_available_slots self clk duration_minutes days_ahead =
     DumpedDict \<lparr>available_slots = [], selected_slot = None,
       notes' = (case search_slots self clk duration_minutes days_ahead of
                   Inl e \<Rightarrow> ErrorFindingSlots e
                 | Inr slots \<Rightarrow> NoSlotsFound days_ahead)\<rparr>"
  proof (cases "search_slots self clk duration_minutes days_ahead")
    case (Inl e)
    then show ?thesis by (simp add: find_available_slots_def)
  next
    case (Inr slots)
    have "slots = []"
    proof (rule ccontr)
      assume "slots \<noteq> []"
      then obtain x where "x \<in> set slots" by (cases slots) auto
      with Inr have "x \<in> set (available_slots (response
          (find_available_slots self clk duration_minutes days_ahead)))"
        by (simp add: found_slots)
      then show False
      proof (cases rule: candidateE)
        case (1 q res day)
        from 1(8,9,10) assms show False
          by (simp add: combine_def us_per_hour_def us_per_minute_def)
      qed
    qed
    with Inr show ?thesis by (simp add: find_available_slots_def)
  qed
  have query_raised: "find_available_slots self clk duration_minutes days_ahead =
            DumpedDict \<lparr>available_slots = [], selected_slot = None,
              notes' = ErrorFindingSlots e\<rparr>"
    if "build_query clk days_ahead = Inr q" and "freebusy self q = Inl e"
    using that by (simp add: find_available_slots_def search_slots_def)
  have build_raised: "find_available_slots self clk duration_minutes days_ahead =
            DumpedDict \<lparr>available_slots = [], selected_slot = None,
              notes' = ErrorFindingSlots e\<rparr>"
    if "build_query clk days_ahead = Inl e"
    using that by (simp add: find_available_slots_def search_slots_def)
  have query_answered: "find_available_slots self clk duration_minutes days_ahead =
            DumpedDict \<lparr>available_slots = [], selected_slot = None,
              notes' = (case days_loop (busy_slots_of res) duration_minutes
                               (date_of (utcnow_3 clk)) (range' days_ahead) [] of
                          Inl e \<Rightarrow> ErrorFindingSlots e
                        | Inr slots \<Rightarrow> NoSlotsFound days_ahead)\<rparr>"
    if "build_query clk days_ahead = Inr q" and "freebusy self q = Inr res"
    using that main by (simp add: search_slots_def)
  from main query_raised build_raised query_answered show ?thesis by blast
qed

text \<open>
  421 minutes on Monday 2024-01-15: the ordinary empty answer with an empty calendar, and
  the error of the free/busy query with a backend that cannot be reached.
\<close>

theorem oversized_duration_finds_nothing_witness:
  "(420::int) < 421
   \<and> find_available_slots (backend [] always_fails) (clock_at monday (15 * us_per_hour)) 421 1
     = DumpedDict \<lparr>available_slots = [], selected_slot = None, notes' = NoSlotsFound 1\<rparr>
   \<and> build_query (clock_at monday (15 * us_per_hour)) 1
       = Inr \<lparr>timeMin = combine monday (15 * us_per_hour),
              timeMax = combine (monday + 1) (15 * us_per_hour) + 1, items = [''primary'']\<rparr>
   \<and> freebusy unreachable_backend
        \<lparr>timeMin = combine monday (15 * us_per_hour),
         timeMax = combine (monday + 1) (15 * us_per_hour) + 1, items = [''primary'']\<rparr>
       = Inl (BackendError ''backend unavailable'')
   \<and> find_available_slots unreachable_backend (clock_at monday (15 * us_per_hour)) 421 1
     = DumpedDict \<lparr>available_slots = [], selected_slot = None,
         notes' = ErrorFindingSlots (BackendError ''backend unavailable'')\<rparr>"
proof -
  have p: "(420::int) < 421" by simp
  have q: "build_query (clock_at monday (15 * us_per_hour)) 1
       = Inr \<lparr>timeMin = combine monday (15 * us_per_hour),
              timeMax = combine (monday + 1) (15 * us_per_hour) + 1, items = [''primary'']\<rparr>"
    by (simp add: build_query_def time_defs example_defs)
  have r: "freebusy unreachable_backend
        \<lparr>timeMin = combine monday (15 * us_per_hour),
         timeMax = combine (monday + 1) (15 * us_per_hour) + 1, items = [''primary'']\<rparr>
       = Inl (BackendError ''backend unavailable'')"
    by (simp add: unreachable_backend_def)
  from oversized_duration_finds_nothing [OF p, of "backend [] always_fails"
      "clock_at monday (15 * us_per_hour)" 1]
  have a: "find_available_slots (backend [] always_fails) (clock_at monday (15 * us_per_hour)) 421 1
     = DumpedDict \<lparr>available_slots = [], selected_slot = None, notes' = NoSlotsFound 1\<rparr>"
    by (simp add: search_defs time_defs example_defs)
  from oversized_duration_finds_nothing [OF p, of unreachable_backend
      "clock_at monday (15 * us_per_hour)" 1] q r
  have b: "find_available_slots unreachable_backend (clock_at monday (15 * us_per_hour)) 421 1
     = DumpedDict \<lparr>available_slots = [], selected_slot = None,
         notes' = ErrorFindingSlots (BackendError ''backend unavailable'')\<rparr>"
    by blast
  from p a q r b show ?thesis by simp
qed

text \<open>
  C2 fails as stated. A duration of 0 minutes is answered with 29 candidates, from 10:00
  to 17:00 every 15 minutes, each ending when it starts, the first of them selected; a
  duration of 421 minutes is answered like a fully booked week.
\<close>

theorem malformed_request_not_signalled_counterexample:
  "selected_slot (response (find_available_slots (backend [] always_fails)
       (clock_at monday (15 * us_per_hour)) 0 1))
     = Some \<lparr>start = combine monday (10 * us_per_hour), end' = combine monday (10 * us_per_hour)\<rparr>
   \<and> notes' (response (find_available_slots (backend [] always_fails)
       (clock_at monday (15 * us_per_hour)) 0 1)) = FoundSlots 29
   \<and> find_available_slots (backend [] always_fails) (clock_at monday (15 * us_per_hour)) 421 1
     = DumpedDict \<lparr>available_slots = [], selected_slot = None, notes' = NoSlotsFound 1\<rparr>"
  by code_simp

section \<open>C3: validation of the event request\<close>

text \<open>
  C3, as the code has it. The only validation of \<open>create_event\<close> is that of the pydantic
  model: when it fails, the tool returns the error response with the validation error,
  logs one line and makes no insert call. When it succeeds, the first thing the tool does
  is an insert call. The model compares no field with another: a request whose
  \<open>start_time\<close> and \<open>end_time\<close> are the same string is valid.
\<close>

theorem unvalidated_fields_reach_backend:
  "(validate_details event_details = Inl e
      \<longrightarrow> create_event self request_id event_details
            = (error_response e, [Log (EventCreationFailed e)])
          \<and> insert_calls (snd (create_event self request_id event_details)) = 0)
   \<and> (validate_details event_details = Inr details
      \<longrightarrow> (\<exists>rest. snd (create_event self request_id event_details)
            = Insert (insert_call (build_event request_id details)) # rest))
   \<and> validate_details
        [(''summary'', PStr title), (''start_time'', PStr t), (''end_time'', PStr t),
         (''attendees'', PList [])]
      = Inr \<lparr>summary = title, description = None, start_time = t, end_time = t,
             attendees = [], timezone = ''UTC''\<rparr>"
proof -
  have "create_event self request_id event_details
            = (error_response e, [Log (EventCreationFailed e)])
          \<and> insert_calls (snd (create_event self request_id event_details)) = 0"
    if "validate_details event_details = Inl e"
    using that by (simp add: create_event_def insert_calls_simps)
  moreover have "\<exists>rest. snd (create_event self request_id event_details)
            = Insert (insert_call (build_event request_id details)) # rest"
    if "validate_details event_details = Inr details"
    using that
    by (auto simp: create_event_def retry_loop_from_start split: sum.splits option.splits)
  moreover have "validate_details
        [(''summary'', PStr title), (''start_time'', PStr t), (''end_time'', PStr t),
         (''attendees'', PList [])]
      = Inr \<lparr>summary = title, description = None, start_time = t, end_time = t,
             attendees = [], timezone = ''UTC''\<rparr>"
    by (simp add: validate_details_def field_names_def)
  ultimately show ?thesis by blast
qed

text \<open>
  A request without \<open>start_time\<close> and \<open>end_time\<close> is refused without a call; the half-hour
  request is valid and is inserted.
\<close>

theorem unvalidated_fields_reach_backend_witness:
  "validate_details untimed_event = Inl ValidationError
   \<and> create_event (backend [] always_succeeds) ''event_1'' untimed_event
      = (error_response ValidationError, [Log (EventCreationFailed ValidationError)])
   \<and> insert_calls (snd (create_event (backend [] always_succeeds) ''event_1'' untimed_event)) = 0
   \<and> validate_details half_hour_event
      = Inr \<lparr>summary = ''Standup'', description = None,
          start_time = ''2024-01-15T10:00:00'', end_time = ''2024-01-15T10:30:00'',
          attendees = [''a@example.com''], timezone = ''UTC''\<rparr>
   \<and> hd (snd (create_event (backend [] always_succeeds) ''event_1'' half_hour_event))
      = Insert (insert_call (build_event ''event_1''
          \<lparr>summary = ''Standup'', description = None,
          start_time = ''2024-01-15T10:00:00'', end_time = ''2024-01-15T10:30:00'',
          attendees = [''a@example.com''], timezone = ''UTC''\<rparr>))"
proof -
  have bad: "validate_details untimed_event = Inl ValidationError"
    by (simp add: validate_details_def field_names_def untimed_event_def)
  from unvalidated_fields_reach_backend
    [of untimed_event ValidationError "backend [] always_succeeds" "''event_1''"] bad
  have a: "create_event (backend [] always_succeeds) ''event_1'' untimed_event
      = (error_response ValidationError, [Log (EventCreationFailed ValidationError)])
     \<and> insert_calls (snd (create_event (backend [] always_succeeds) ''event_1'' untimed_event)) = 0"
    by blast
  from unvalidated_fields_reach_backend
    [where event_details = half_hour_event and self = "backend [] always_succeeds"
       and request_id = "''event_1''" and title = "''Standup''" and t = "''2024-01-15T10:00:00''"
       and details = "\<lparr>summary = ''Standup'', description = None,
          start_time = ''2024-01-15T10:00:00'', end_time = ''2024-01-15T10:30:00'',
          attendees = [''a@example.com''], timezone = ''UTC''\<rparr>"]
    half_hour_event_valid
  have b: "hd (snd (create_event (backend [] always_succeeds) ''event_1'' half_hour_event))
      = Insert (insert_call (build_event ''event_1''
          \<lparr>summary = ''Standup'', description = None,
          start_time = ''2024-01-15T10:00:00'', end_time = ''2024-01-15T10:30:00'',
          attendees = [''a@example.com''], timezone = ''UTC''\<rparr>))"
    by auto
  from bad a b half_hour_event_valid show ?thesis by (simp add: insert_calls_simps)
qed

text \<open>
  C3 fails as stated. The request from 10:00 to 10:00 is inserted with one call, and the
  backend's acceptance makes the result a success.
\<close>

theorem zero_length_event_is_submitted_counterexample:
  "status (fst (create_event (backend [] always_succeeds) ''event_1'' zero_length_event))
     = ''success''
   \<and> insert_calls (snd (create_event (backend [] always_succeeds) ''event_1'' zero_length_event)) = 1
   \<and> map_of zero_length_event ''start_time'' = map_of zero_length_event ''end_time''"
  by (simp add: create_event_def validate_details_def field_names_def zero_length_event_def
        retry_loop_from_start backend_def always_succeeds_def insert_calls_simps)

section \<open>C4: the retry bound\<close>

text \<open>
  C4. \<open>create_event\<close> never makes more than 3 insert calls. Against a backend that fails
  every call, a valid request makes exactly 3, sleeping \<open>2 ^ 1\<close> seconds after the first
  failure and \<open>2 ^ 2\<close> after the second and not at all after the third, and the result is
  the error response with the third exception. When the first call succeeds it is the
  only one, no sleep follows, and the result is a success.
\<close>

theorem retry_bound:
  "insert_calls (snd (create_event self request_id event_details)) \<le> 3
   \<and> (validate_details event_details = Inr details
        \<and> (\<forall>n. isl (events_insert self n (insert_call (build_event request_id details))))
      \<longrightarrow> actions (snd (create_event self request_id event_details))
            = [Insert (insert_call (build_event request_id details)), Sleep (2 ^ 1),
               Insert (insert_call (build_event request_id details)), Sleep (2 ^ 2),
               Insert (insert_call (build_event request_id details))]
          \<and> fst (create_event self request_id event_details)
            = error_response (projl (events_insert self 2 (insert_call (build_event request_id details)))))
   \<and> (validate_details event_details = Inr details
        \<and> \<not> isl (events_insert self 0 (insert_call (build_event request_id details)))
      \<longrightarrow> actions (snd (create_event self request_id event_details))
            = [Insert (insert_call (build_event request_id details))]
          \<and> status (fst (create_event self request_id event_details)) = ''success'')"
proof (intro conjI impI)
  show "insert_calls (snd (create_event self request_id event_details)) \<le> 3"
    by (auto simp: create_event_def retry_loop_from_start insert_calls_append
          insert_calls_attendee_logs insert_calls_simps
        split: sum.splits option.splits)
next
  assume a: "validate_details event_details = Inr details
        \<and> (\<forall>n. isl (events_insert self n (insert_call (build_event request_id details))))"
  let ?request = "insert_call (build_event request_id details)"
  from a obtain e1 e2 e3 where
    "events_insert self 0 ?request = Inl e1" "events_insert self 1 ?request = Inl e2"
    "events_insert self 2 ?request = Inl e3"
    by (metis isl_def)
  with a show "actions (snd (create_event self request_id event_details))
            = [Insert ?request, Sleep (2 ^ 1), Insert ?request, Sleep (2 ^ 2), Insert ?request]"
    and "fst (create_event self request_id event_details)
            = error_response (projl (events_insert self 2 ?request))"
    by (simp_all add: create_event_def retry_loop_from_start actions_append actions_simps)
next
  assume a: "validate_details event_details = Inr details
        \<and> \<not> isl (events_insert self 0 (insert_call (build_event request_id details)))"
  let ?request = "insert_call (build_event request_id details)"
  from a obtain created where "events_insert self 0 ?request = Inr created"
    by (cases "events_insert self 0 ?request") auto
  with a show "actions (snd (create_event self request_id event_details)) = [Insert ?request]"
    and "status (fst (create_event self request_id event_details)) = ''success''"
    by (simp_all add: create_event_def retry_loop_from_start actions_append
          actions_attendee_logs actions_simps split: option.splits)
qed

text \<open>
  The half-hour request against a backend that always fails, and against one that always
  succeeds.
\<close>

theorem retry_bound_witness:
  "insert_calls (snd (create_event (backend [] always_fails) ''event_1'' half_hour_event)) = 3
   \<and> actions (snd (create_event (backend [] always_fails) ''event_1'' half_hour_event))
      = [Insert (insert_call (build_event ''event_1''
           \<lparr>summary = ''Standup'', description = None,
            start_time = ''2024-01-15T10:00:00'', end_time = ''2024-01-15T10:30:00'',
            attendees = [''a@example.com''], timezone = ''UTC''\<rparr>)),
         Sleep 2,
         Insert (insert_call (build_event ''event_1''
           \<lparr>summary = ''Standup'', description = None,
            start_time = ''2024-01-15T10:00:00'', end_time = ''2024-01-15T10:30:00'',
            attendees = [''a@example.com''], timezone = ''UTC''\<rparr>)),
         Sleep 4,
         Insert (insert_call (build_event ''event_1''
           \<lparr>summary = ''Standup'', description = None,
            start_time = ''2024-01-15T10:00:00'', end_time = ''2024-01-15T10:30:00'',
            attendees = [''a@example.com''], timezone = ''UTC''\<rparr>))]
   \<and> fst (create_event (backend [] always_fails) ''event_1'' half_hour_event)
      = error_response (BackendError ''backend unavailable'')
   \<and> actions (snd (create_event (backend [] always_succeeds) ''event_1'' half_hour_event))
      = [Insert (insert_call (build_event ''event_1''
           \<lparr>summary = ''Standup'', description = None,
            start_time = ''2024-01-15T10:00:00'', end_time = ''2024-01-15T10:30:00'',
            attendees = [''a@example.com''], timezone = ''UTC''\<rparr>))]"
proof -
  let ?details = "\<lparr>summary = ''Standup'', description = None,
            start_time = ''2024-01-15T10:00:00'', end_time = ''2024-01-15T10:30:00'',
            attendees = [''a@example.com''], timezone = ''UTC''\<rparr>"
  have fails: "\<forall>n. isl (events_insert (backend [] always_fails) n
      (insert_call (build_event ''event_1'' ?details)))"
    by (simp add: backend_def always_fails_def)
  have succeeds: "\<not> isl (events_insert (backend [] always_succeeds) 0
      (insert_call (build_event ''event_1'' ?details)))"
    by (simp add: backend_def always_succeeds_def)
  have third: "projl (events_insert (backend [] always_fails) 2
      (insert_call (build_event ''event_1'' ?details))) = BackendError ''backend unavailable''"
    by (simp add: backend_def always_fails_def)
  from retry_bound [of "backend [] always_fails" "''event_1''" half_hour_event ?details]
    half_hour_event_valid fails third
  have a: "actions (snd (create_event (backend [] always_fails) ''event_1'' half_hour_event))
      = [Insert (insert_call (build_event ''event_1'' ?details)), Sleep 2,
         Insert (insert_call (build_event ''event_1'' ?details)), Sleep 4,
         Insert (insert_call (build_event ''event_1'' ?details))]"
    and b: "fst (create_event (backend [] always_fails) ''event_1'' half_hour_event)
      = error_response (BackendError ''backend unavailable'')"
    by simp_all
  from retry_bound [of "backend [] always_succeeds" "''event_1''" half_hour_event ?details]
    half_hour_event_valid succeeds
  have c: "actions (snd (create_event (backend [] always_succeeds) ''event_1'' half_hour_event))
      = [Insert (insert_call (build_event ''event_1'' ?details))]"
    by simp
  have d: "insert_calls (snd (create_event (backend [] always_fails) ''event_1'' half_hour_event)) = 3"
    by (simp add: create_event_def half_hour_event_valid retry_loop_from_start
          backend_def always_fails_def insert_calls_simps insert_calls_append)
  from a b c d show ?thesis by simp
qed

section \<open>C5: the selected slot\<close>

text \<open>
  C5. In every response of \<open>find_available_slots\<close>, \<open>selected_slot\<close> is \<open>None\<close> exactly
  when \<open>available_slots\<close> is empty, and otherwise it is the first element of
  \<open>available_slots\<close>. This holds on all three return paths.
\<close>

theorem selected_is_first_candidate:
  "(selected_slot (response (find_available_slots self clk duration_minutes days_ahead)) = None
      \<longleftrightarrow> available_slots (response (find_available_slots self clk duration_minutes days_ahead)) = [])
   \<and> (available_slots (response (find_available_slots self clk duration_minutes days_ahead)) \<noteq> []
      \<longrightarrow> selected_slot (response (find_available_slots self clk duration_minutes days_ahead))
          = Some (available_slots (response (find_available_slots self clk duration_minutes days_ahead)) ! 0))"
  by (simp add: find_available_slots_def split: sum.splits)

text \<open>
  On Monday 2024-01-15 with an empty calendar, a 405-minute meeting has the two
  candidates 10:00 and 10:15, and the first one is selected.
\<close>

theorem selected_is_first_candidate_witness:
  "available_slots (response (find_available_slots (backend [] always_fails)
       (clock_at monday (15 * us_per_hour)) 405 1)) \<noteq> []
   \<and> selected_slot (response (find_available_slots (backend [] always_fails)
       (clock_at monday (15 * us_per_hour)) 405 1))
       = Some \<lparr>start = 63840996000000000, end' = 63841020300000000\<rparr>
   \<and> length (available_slots (response (find_available_slots (backend [] always_fails)
       (clock_at monday (15 * us_per_hour)) 405 1))) = 2"
  using selected_is_first_candidate [of "backend [] always_fails" "clock_at monday (15 * us_per_hour)" 405 1]
  by (simp add: search_defs time_defs example_defs)

section \<open>C6: candidates and the day window\<close>

text \<open>
  C6, for a positive duration. Every candidate starts on one of the \<open>days_ahead\<close> days
  from the current UTC date on, that day is a Monday to Friday, and the candidate lies in
  the day's window: it starts at 10:00 or later, ends after it starts, and ends at 17:00
  or earlier.
\<close>

theorem candidates_within_window:
  assumes "0 < duration_minutes"
    and "x \<in> set (available_slots (response (find_available_slots self clk duration_minutes days_ahead)))"
  shows "date_of (utcnow_3 clk) \<le> date_of (start x)
    \<and> date_of (start x) < date_of (utcnow_3 clk) + days_ahead
    \<and> weekday (date_of (start x)) < 5
    \<and> combine (date_of (start x)) (10 * us_per_hour) \<le> start x
    \<and> start x < end' x
    \<and> end' x \<le> combine (date_of (start x)) (17 * us_per_hour)"
  using assms(2)
proof (cases rule: candidateE)
  case (1 q res day)
  have lt: "start x < end' x"
    using 1(9) assms(1) by (simp add: us_per_minute_def)
  with 1(10) have "start x < combine (date_of (utcnow_3 clk) + day) (17 * us_per_hour)"
    by simp
  with 1(8) have "date_of (start x) = date_of (utcnow_3 clk) + day"
    by (rule date_of_between) (simp_all add: us_per_hour_def us_per_day_def)
  with 1 lt show ?thesis by simp
qed

text \<open>
  The 420-minute slot of Monday 2024-01-15 fills the window from 10:00 to 17:00.
\<close>

theorem candidates_within_window_witness:
  "(0::int) < 420
   \<and> \<lparr>start = combine monday (10 * us_per_hour), end' = combine monday (17 * us_per_hour)\<rparr>
       \<in> set (available_slots (response (find_available_slots (backend [] always_fails)
            (clock_at monday (15 * us_per_hour)) 420 1)))
   \<and> weekday (date_of (combine monday (10 * us_per_hour))) < 5
   \<and> date_of (combine monday (10 * us_per_hour)) = monday"
proof -
  have h: "\<lparr>start = combine monday (10 * us_per_hour), end' = combine monday (17 * us_per_hour)\<rparr>
       \<in> set (available_slots (response (find_available_slots (backend [] always_fails)
            (clock_at monday (15 * us_per_hour)) 420 1)))"
    by (simp add: search_defs time_defs example_defs)
  have p: "(0::int) < 420" by simp
  from candidates_within_window [OF p h] h show ?thesis
    by (simp add: time_defs example_defs)
qed

text \<open>
  C6 fails without the bound on the duration. Asked on Friday 2024-01-19 for a meeting
  of -1440 minutes, the loop runs while \<open>slot_start - 24h \<le> Friday 17:00\<close>, so its last
  candidate starts on Saturday at 17:00 (and ends on Friday at 17:00): after the close of
  Friday's window, and on a Saturday.
\<close>

theorem candidate_on_saturday_counterexample:
  "\<lparr>start = combine (friday + 1) (17 * us_per_hour), end' = combine friday (17 * us_per_hour)\<rparr>
       \<in> set (available_slots (response (find_available_slots (backend [] always_fails)
            (clock_at friday (15 * us_per_hour)) (- 1440) 1)))
   \<and> weekday (date_of (combine (friday + 1) (17 * us_per_hour))) = 5
   \<and> combine friday (17 * us_per_hour) < combine (friday + 1) (17 * us_per_hour)"
  by code_simp

section \<open>C7: the order of the candidates\<close>

text \<open>
  C7, for a duration above -1020 minutes, so for every positive duration. The candidates
  are in strictly increasing order of their start, and no slot occurs twice.
\<close>

theorem candidates_strictly_ordered:
  assumes "- 1020 < duration_minutes"
  shows "sorted_wrt earlier (available_slots (response (find_available_slots self clk duration_minutes days_ahead)))
    \<and> distinct (available_slots (response (find_available_slots self clk duration_minutes days_ahead)))"
proof (cases "search_slots self clk duration_minutes days_ahead")
  case (Inl e)
  then show ?thesis by (simp add: found_slots)
next
  case (Inr slots)
  then obtain q res where
    "days_loop (busy_slots_of res) duration_minutes (date_of (utcnow_3 clk))
       (range' days_ahead) [] = Inr slots"
    by (rule search_slotsE)
  from days_loop_result [OF this] assms have "sorted_wrt earlier slots"
    by (simp add: range'_def)
  with Inr show ?thesis by (simp add: found_slots earlier_distinct)
qed

text \<open>
  The two candidates of a 405-minute meeting on Monday 2024-01-15, 10:00 and 10:15, are
  in order.
\<close>

theorem candidates_strictly_ordered_witness:
  "(- 1020 :: int) < 405
   \<and> available_slots (response (find_available_slots (backend [] always_fails)
            (clock_at monday (15 * us_per_hour)) 405 1))
      = [\<lparr>start = combine monday (10 * us_per_hour),
           end' = combine monday (16 * us_per_hour + 45 * us_per_minute)\<rparr>,
         \<lparr>start = combine monday (10 * us_per_hour + 15 * us_per_minute),
           end' = combine monday (17 * us_per_hour)\<rparr>]
   \<and> sorted_wrt earlier (available_slots (response (find_available_slots (backend [] always_fails)
            (clock_at monday (15 * us_per_hour)) 405 1)))"
proof -
  have p: "(- 1020 :: int) < 405" by simp
  from candidates_strictly_ordered [OF p, of "backend [] always_fails"
      "clock_at monday (15 * us_per_hour)" 1]
  show ?thesis by (simp add: search_defs time_defs example_defs)
qed

text \<open>
  C7 fails at -1020 minutes over two days. Monday's loop runs while
  \<open>slot_start - 17h \<le> Monday 17:00\<close>, so its 97th and last candidate starts on Tuesday
  at 10:00; Tuesday's loop begins with the same slot.
\<close>

theorem duplicate_candidate_counterexample:
  "\<not> distinct (available_slots (response (find_available_slots (backend [] always_fails)
       (clock_at monday (15 * us_per_hour)) (- 1020) 2)))
   \<and> occurs_at (available_slots (response (find_available_slots (backend [] always_fails)
       (clock_at monday (15 * us_per_hour)) (- 1020) 2))) 96 97
       \<lparr>start = combine (monday + 1) (10 * us_per_hour), end' = combine monday (17 * us_per_hour)\<rparr>"
proof -
  have twice: "occurs_at (available_slots (response (find_available_slots (backend [] always_fails)
       (clock_at monday (15 * us_per_hour)) (- 1020) 2))) 96 97
       \<lparr>start = combine (monday + 1) (10 * us_per_hour), end' = combine monday (17 * us_per_hour)\<rparr>"
    by code_simp
  then have "\<not> distinct (available_slots (response (find_available_slots (backend [] always_fails)
       (clock_at monday (15 * us_per_hour)) (- 1020) 2)))"
    by (rule occurs_at_not_distinct)
  with twice show ?thesis by simp
qed

section \<open>C8: the same busy set and request give the same answer\<close>

text \<open>
  C8. Two calls with the same \<open>duration_minutes\<close> and \<open>days_ahead\<close>, whose free/busy
  queries return the same busy list and whose third clock reading falls on the same UTC
  date, return the same value, whatever else differs: the backend, the time of day, the
  first two clock readings, and so the bounds of the query.
\<close>

theorem same_request_same_candidates:
  assumes "build_query clk days_ahead = Inr q" and "freebusy self q = Inr res"
    and "build_query clk' days_ahead = Inr q'" and "freebusy self' q' = Inr res'"
    and "busy_slots_of res = busy_slots_of res'"
    and "date_of (utcnow_3 clk) = date_of (utcnow_3 clk')"
  shows "find_available_slots self clk duration_minutes days_ahead
       = find_available_slots self' clk' duration_minutes days_ahead"
  using assms by (simp add: find_available_slots_def search_slots_def)

text \<open>
  A call at 15:00 and a call at 9:00 on the same Monday, against two different backends
  with an empty calendar.
\<close>

theorem same_request_same_candidates_witness:
  "find_available_slots (backend [] always_fails) (clock_at monday (15 * us_per_hour)) 420 1
     = find_available_slots (backend [] always_succeeds) (clock_at monday (9 * us_per_hour)) 420 1
   \<and> utcnow_3 (clock_at monday (15 * us_per_hour)) \<noteq> utcnow_3 (clock_at monday (9 * us_per_hour))
   \<and> date_of (utcnow_3 (clock_at monday (15 * us_per_hour)))
       = date_of (utcnow_3 (clock_at monday (9 * us_per_hour)))"
proof -
  have q: "build_query (clock_at monday (15 * us_per_hour)) 1
       = Inr \<lparr>timeMin = combine monday (15 * us_per_hour),
              timeMax = combine (monday + 1) (15 * us_per_hour) + 1, items = [''primary'']\<rparr>"
    by (simp add: build_query_def time_defs example_defs)
  have q': "build_query (clock_at monday (9 * us_per_hour)) 1
       = Inr \<lparr>timeMin = combine monday (9 * us_per_hour),
              timeMax = combine (monday + 1) (9 * us_per_hour) + 1, items = [''primary'']\<rparr>"
    by (simp add: build_query_def time_defs example_defs)
  have r: "freebusy (backend [] always_fails)
       \<lparr>timeMin = combine monday (15 * us_per_hour),
        timeMax = combine (monday + 1) (15 * us_per_hour) + 1, items = [''primary'']\<rparr>
      = Inr (Some [''primary'' \<mapsto> Some []])"
    by (simp add: backend_def)
  have r': "freebusy (backend [] always_succeeds)
       \<lparr>timeMin = combine monday (9 * us_per_hour),
        timeMax = combine (monday + 1) (9 * us_per_hour) + 1, items = [''primary'']\<rparr>
      = Inr (Some [''primary'' \<mapsto> Some []])"
    by (simp add: backend_def)
  have d: "date_of (utcnow_3 (clock_at monday (15 * us_per_hour)))
       = date_of (utcnow_3 (clock_at monday (9 * us_per_hour)))"
    by (simp add: time_defs example_defs)
  have n: "utcnow_3 (clock_at monday (15 * us_per_hour)) \<noteq> utcnow_3 (clock_at monday (9 * us_per_hour))"
    by (simp add: time_defs example_defs)
  from same_request_same_candidates [OF q r q' r' refl d, of 420] d n
  show ?thesis by simp
qed

section \<open>C9: the shape of the returned value\<close>

text \<open>
  C9. \<open>find_available_slots\<close> returns the dumped dict exactly when the search raised or
  found nothing, that is exactly when the returned \<open>available_slots\<close> is empty; with at
  least one candidate it returns the model object.
\<close>

theorem return_shape_by_branch:
  "(is_dict (find_available_slots self clk duration_minutes days_ahead)
      \<longleftrightarrow> (case search_slots self clk duration_minutes days_ahead of
                Inl e \<Rightarrow> True | Inr slots \<Rightarrow> slots = []))
   \<and> (is_dict (find_available_slots self clk duration_minutes days_ahead)
      \<longleftrightarrow> available_slots (response (find_available_slots self clk duration_minutes days_ahead)) = [])"
  by (simp add: find_available_slots_def split: sum.splits)

text \<open>
  All three branches occur: a model object for 420 minutes, a dict for 421 minutes, a dict
  when the free/busy query fails.
\<close>

theorem return_shape_by_branch_witness:
  "\<not> is_dict (find_available_slots (backend [] always_fails)
         (clock_at monday (15 * us_per_hour)) 420 1)
   \<and> is_dict (find_available_slots (backend [] always_fails)
         (clock_at monday (15 * us_per_hour)) 421 1)
   \<and> is_dict (find_available_slots unreachable_backend
         (clock_at monday (15 * us_per_hour)) 420 1)"
proof -
  have a: "search_slots (backend [] always_fails) (clock_at monday (15 * us_per_hour)) 420 1
      = Inr [\<lparr>start = combine monday (10 * us_per_hour), end' = combine monday (17 * us_per_hour)\<rparr>]"
    by (simp add: search_defs time_defs example_defs)
  have b: "search_slots (backend [] always_fails) (clock_at monday (15 * us_per_hour)) 421 1
      = Inr []"
    by (simp add: search_defs time_defs example_defs)
  have c: "search_slots unreachable_backend (clock_at monday (15 * us_per_hour)) 420 1
      = Inl (BackendError ''backend unavailable'')"
    by (simp add: search_defs time_defs example_defs)
  from return_shape_by_branch [of "backend [] always_fails" "clock_at monday (15 * us_per_hour)" 420 1]
    return_shape_by_branch [of "backend [] always_fails" "clock_at monday (15 * us_per_hour)" 421 1]
    return_shape_by_branch [of unreachable_backend "clock_at monday (15 * us_per_hour)" 420 1]
    a b c
  show ?thesis by simp
qed

section \<open>C10: a slot before the time of the call\<close>

text \<open>
  C10. When the tool is called on a Monday to Friday after 10:00 UTC, for 1 to 420
  minutes and at least one day, and the free/busy query (whose \<open>timeMin\<close> is the time of
  the call) returns no busy interval, the selected slot starts at 10:00 of that day,
  which is before the time of the call and before \<open>timeMin\<close>.
\<close>

theorem first_day_slot_before_call:
  assumes "0 < duration_minutes" and "duration_minutes \<le> 420" and "1 \<le> days_ahead"
    and "date_of (utcnow_3 clk) = date_of (utcnow_1 clk)"
    and "combine (date_of (utcnow_1 clk)) (10 * us_per_hour) < utcnow_1 clk"
    and "weekday (date_of (utcnow_1 clk)) < 5"
    and "0 < date_of (utcnow_1 clk)"
    and "date_of (utcnow_1 clk) + days_ahead - 1 \<le> MAXORDINAL"
    and "build_query clk days_ahead = Inr q" and "freebusy self q = Inr res"
    and "busy_slots_of res = []"
  shows "selected_slot (response (find_available_slots self clk duration_minutes days_ahead))
       = Some \<lparr>start = combine (date_of (utcnow_1 clk)) (10 * us_per_hour),
               end' = combine (date_of (utcnow_1 clk)) (10 * us_per_hour)
                      + duration_minutes * us_per_minute\<rparr>
    \<and> combine (date_of (utcnow_1 clk)) (10 * us_per_hour) < timeMin q
    \<and> timeMin q = utcnow_1 clk"
proof -
  let ?today = "date_of (utcnow_1 clk)"
  let ?slot = "\<lparr>start = combine ?today (10 * us_per_hour),
                 end' = combine ?today (10 * us_per_hour) + duration_minutes * us_per_minute\<rparr>"
  have dur: "0 \<le> duration_minutes" using assms(1) by simp
  have rng: "range' days_ahead = 0 # [1..days_ahead - 1]"
    using assms(3) by (simp add: range'_def upto_rec1)
  have td: "timedelta_days 0 = Inr 0"
    by (simp add: timedelta_days_def timedelta_def)
  have da: "date_add ?today 0 = Inr ?today"
    using assms(7,8,3) by (simp add: date_add_def)
  have "\<exists>new. slots_loop [] duration_minutes (combine ?today (17 * us_per_hour))
           (combine ?today (10 * us_per_hour)) [] = Inr ([] @ new)
          \<and> (combine ?today (10 * us_per_hour) + duration_minutes * us_per_minute
               \<le> combine ?today (17 * us_per_hour) \<longrightarrow>
               (\<exists>rest. new = ?slot # rest))"
    using refl refl assms(7) _ dur assms(2)
  proof (rule slots_loop_free_calendar)
    show "?today \<le> MAXORDINAL" using assms(3,8) by simp
    show "combine ?today (10 * us_per_hour) + duration_minutes * us_per_minute
          \<le> combine ?today (17 * us_per_hour) + 15 * us_per_minute"
      using assms(2) by (simp add: combine_def us_per_hour_def us_per_minute_def)
  qed simp
  moreover have "combine ?today (10 * us_per_hour) + duration_minutes * us_per_minute
               \<le> combine ?today (17 * us_per_hour)"
    using assms(2) by (simp add: combine_def us_per_hour_def us_per_minute_def)
  ultimately obtain rest1 where
    s: "slots_loop [] duration_minutes (combine ?today (17 * us_per_hour))
           (combine ?today (10 * us_per_hour)) [] = Inr (?slot # rest1)"
    by auto
  have "\<exists>new. days_loop [] duration_minutes ?today [1..days_ahead - 1] (?slot # rest1)
          = Inr ((?slot # rest1) @ new)"
    using dur assms(2,7)
  proof (rule days_loop_free_calendar)
    show "\<forall>day\<in>set [1..days_ahead - 1]. 0 \<le> day \<and> ?today + day \<le> MAXORDINAL"
      using assms(8) by auto
  qed
  then obtain rest2 where
    "days_loop [] duration_minutes ?today [1..days_ahead - 1] (?slot # rest1)
          = Inr (?slot # rest1 @ rest2)"
    by auto
  with s td da assms(6) have
    "days_loop [] duration_minutes ?today (range' days_ahead) [] = Inr (?slot # rest1 @ rest2)"
    by (simp add: rng)
  with assms(4,9,10,11) have
    "search_slots self clk duration_minutes days_ahead = Inr (?slot # rest1 @ rest2)"
    by (simp add: search_slots_def)
  then have "selected_slot (response (find_available_slots self clk duration_minutes days_ahead))
       = Some ?slot"
    by (simp add: find_available_slots_def)
  moreover from assms(9) have "timeMin q = utcnow_1 clk"
    by (auto simp: build_query_def split: sum.splits)
  ultimately show ?thesis using assms(5) by simp
qed

text \<open>
  Called on Monday 2024-01-15 at 15:00 for 60 minutes in the next 7 days, the tool selects
  10:00 to 11:00 of that Monday.
\<close>

theorem first_day_slot_before_call_witness:
  "selected_slot (response (find_available_slots (backend [] always_fails)
       (clock_at monday (15 * us_per_hour)) 60 7))
     = Some \<lparr>start = combine monday (10 * us_per_hour), end' = combine monday (11 * us_per_hour)\<rparr>
   \<and> combine monday (10 * us_per_hour) < utcnow_1 (clock_at monday (15 * us_per_hour))
   \<and> build_query (clock_at monday (15 * us_per_hour)) 7
       = Inr \<lparr>timeMin = combine monday (15 * us_per_hour),
              timeMax = combine (monday + 7) (15 * us_per_hour) + 1, items = [''primary'']\<rparr>"
proof -
  have q: "build_query (clock_at monday (15 * us_per_hour)) 7
       = Inr \<lparr>timeMin = combine monday (15 * us_per_hour),
              timeMax = combine (monday + 7) (15 * us_per_hour) + 1, items = [''primary'']\<rparr>"
    by (simp add: build_query_def time_defs example_defs)
  have r: "freebusy (backend [] always_fails)
       \<lparr>timeMin = combine monday (15 * us_per_hour),
        timeMax = combine (monday + 7) (15 * us_per_hour) + 1, items = [''primary'']\<rparr>
      = Inr (Some [''primary'' \<mapsto> Some []])"
    by (simp add: backend_def)
  have b: "busy_slots_of (Some [''primary'' \<mapsto> Some []]) = []"
    by (simp add: busy_slots_of_def)
  have "selected_slot (response (find_available_slots (backend [] always_fails)
       (clock_at monday (15 * us_per_hour)) 60 7))
       = Some \<lparr>start = combine (date_of (utcnow_1 (clock_at monday (15 * us_per_hour)))) (10 * us_per_hour),
               end' = combine (date_of (utcnow_1 (clock_at monday (15 * us_per_hour)))) (10 * us_per_hour)
                      + 60 * us_per_minute\<rparr>
    \<and> combine (date_of (utcnow_1 (clock_at monday (15 * us_per_hour)))) (10 * us_per_hour)
        < timeMin \<lparr>timeMin = combine monday (15 * us_per_hour),
              timeMax = combine (monday + 7) (15 * us_per_hour) + 1, items = [''primary'']\<rparr>
    \<and> timeMin \<lparr>timeMin = combine monday (15 * us_per_hour),
              timeMax = combine (monday + 7) (15 * us_per_hour) + 1, items = [''primary'']\<rparr>
        = utcnow_1 (clock_at monday (15 * us_per_hour))"
    by (rule first_day_slot_before_call [OF _ _ _ _ _ _ _ _ q r b])
       (simp_all add: time_defs example_defs)
  with q show ?thesis by (simp add: time_defs example_defs)
qed

end
